theory Spec2Isabelle
  imports Main
begin

section \<open>JavaScript values\<close>

text \<open>
  The generator receives schemas typed \<open>any\<close>: whatever JSON the introspected server sent.
  A value is a JSON value or \<open>undefined\<close>. An object is the list of its own properties in
  the order \<open>Object.entries\<close> enumerates them (keys are distinct); a number is carried
  as its \<open>ToString\<close> text, which together with its truthiness is all the generator ever
  observes of it. Strings are lists of ASCII code units.
\<close>

datatype json =
    JUndefined
  | JNull
  | JBool bool
  | JNum string
  | JStr string
  | JArr "json list"
  | JObj "(string \<times> json) list"

text \<open>What an evaluation can throw: the runtime's \<open>TypeError\<close> (calling \<open>.map\<close> on a value
  that is not an array, iterating a value that is not iterable, reading a property of
  \<open>null\<close> or \<open>undefined\<close>), or \<open>new Error(message)\<close>.\<close>

datatype thrown = TypeError | Error string

definition bindE :: "thrown + 'a \<Rightarrow> ('a \<Rightarrow> thrown + 'b) \<Rightarrow> thrown + 'b" where
  "bindE m f = (case m of Inl e \<Rightarrow> Inl e | Inr x \<Rightarrow> f x)"

text \<open>\<open>Array.prototype.map\<close> and \<open>for ... of\<close> with a body that may throw: the first throw
  ends the loop.\<close>

fun mapE :: "('a \<Rightarrow> thrown + 'b) \<Rightarrow> 'a list \<Rightarrow> thrown + 'b list" where
  "mapE f [] = Inr []"
| "mapE f (x # xs) = bindE (f x) (\<lambda>y. bindE (mapE f xs) (\<lambda>ys. Inr (y # ys)))"

lemma bindE_Inl [simp]: "bindE (Inl e) f = Inl e"
  by (simp add: bindE_def)

lemma bindE_Inr [simp]: "bindE (Inr x) f = f x"
  by (simp add: bindE_def)

lemma bindE_cong [fundef_cong]:
  "m = m' \<Longrightarrow> (\<And>x. m' = Inr x \<Longrightarrow> f x = g x) \<Longrightarrow> bindE m f = bindE m' g"
  by (auto simp: bindE_def split: sum.splits)

lemma mapE_cong [fundef_cong]:
  "xs = ys \<Longrightarrow> (\<And>x. x \<in> set ys \<Longrightarrow> f x = g x) \<Longrightarrow> mapE f xs = mapE g ys"
  by (induction ys arbitrary: xs) (auto cong: bindE_cong)

definition dq :: char where
  "dq = CHR 0x22"

definition nl :: char where
  "nl = CHR 0x0A"

text \<open>ToBoolean.\<close>

fun truthy :: "json \<Rightarrow> bool" where
  "truthy JUndefined = False"
| "truthy JNull = False"
| "truthy (JBool b) = b"
| "truthy (JNum n) = (n \<noteq> ''0'' \<and> n \<noteq> ''NaN'')"
| "truthy (JStr s) = (s \<noteq> [])"
| "truthy (JArr xs) = True"
| "truthy (JObj kvs) = True"

text \<open>
  \<open>v.k\<close> for a receiver other than \<open>null\<close> and \<open>undefined\<close> and a name \<open>k\<close> that no
  built-in prototype defines (every name the generator reads is such a name): an own
  property of an object, \<open>undefined\<close> otherwise. It is also \<open>v?.k\<close> for every receiver.
\<close>

fun getProp :: "json \<Rightarrow> string \<Rightarrow> json" where
  "getProp (JObj kvs) k = (case map_of kvs k of Some v \<Rightarrow> v | None \<Rightarrow> JUndefined)"
| "getProp v k = JUndefined"

text \<open>\<open>v.k\<close> for any receiver: reading a property of \<open>null\<close> or \<open>undefined\<close> throws.\<close>

fun getMember :: "json \<Rightarrow> string \<Rightarrow> thrown + json" where
  "getMember JUndefined k = Inl TypeError"
| "getMember JNull k = Inl TypeError"
| "getMember v k = Inr (getProp v k)"

definition digit :: "nat \<Rightarrow> char" where
  "digit d = ''0123456789'' ! d"

fun show_nat :: "nat \<Rightarrow> string" where
  "show_nat n = (if n < 10 then [digit n] else show_nat (n div 10) @ [digit (n mod 10)])"

declare show_nat.simps [simp del]

text \<open>\<open>Object.entries(v)\<close> for a truthy \<open>v\<close>: an array and a string have their indices as
  keys, a number and a boolean have no own property.\<close>

fun entries :: "json \<Rightarrow> (string \<times> json) list" where
  "entries (JObj kvs) = kvs"
| "entries (JArr xs) = zip (map show_nat [0..<length xs]) xs"
| "entries (JStr s) = zip (map show_nat [0..<length s]) (map (\<lambda>c. JStr [c]) s)"
| "entries v = []"

text \<open>The values \<open>new Set(v)\<close> iterates for a truthy \<open>v\<close>: arrays and strings are iterable,
  nothing else is.\<close>

fun iterate :: "json \<Rightarrow> thrown + json list" where
  "iterate (JArr xs) = Inr xs"
| "iterate (JStr s) = Inr (map (\<lambda>c. JStr [c]) s)"
| "iterate v = Inl TypeError"

text \<open>The elements of an array; \<open>None\<close> for every other value, on which \<open>.map\<close> is not a
  function.\<close>

fun arrayItems :: "json \<Rightarrow> json list option" where
  "arrayItems (JArr xs) = Some xs"
| "arrayItems v = None"

text \<open>\<open>Array.prototype.join\<close> on strings.\<close>

fun join :: "string \<Rightarrow> string list \<Rightarrow> string" where
  "join sep [] = []"
| "join sep [x] = x"
| "join sep (x # y # ys) = x @ sep @ join sep (y # ys)"

text \<open>
  ToString, as a template literal and \<open>String(v)\<close> apply it. An array joins its elements
  with commas, \<open>null\<close> and \<open>undefined\<close> elements as empty strings. A plain object is
  \<open>[object Object]\<close>, unless it has an own property \<open>toString\<close>: that property is JSON data,
  so it is not callable, and the conversion throws.
\<close>

fun toStringJS :: "json \<Rightarrow> thrown + string" where
  "toStringJS JUndefined = Inr ''undefined''"
| "toStringJS JNull = Inr ''null''"
| "toStringJS (JBool b) = Inr (if b then ''true'' else ''false'')"
| "toStringJS (JNum n) = Inr n"
| "toStringJS (JStr s) = Inr s"
| "toStringJS (JArr xs) =
     bindE (mapE (\<lambda>x. if x = JNull \<or> x = JUndefined then Inr [] else toStringJS x) xs)
       (\<lambda>ss. Inr (join '','' ss))"
| "toStringJS (JObj kvs) =
     (if ''toString'' \<in> fst ` set kvs then Inl TypeError else Inr ''[object Object]'')"

section \<open>Naming utilities (codegen/utils.ts)\<close>

definition lowerLetters :: string where
  "lowerLetters = ''abcdefghijklmnopqrstuvwxyz''"

definition upperLetters :: string where
  "upperLetters = ''ABCDEFGHIJKLMNOPQRSTUVWXYZ''"

definition decimalDigits :: string where
  "decimalDigits = ''0123456789''"

text \<open>The whitespace class of regular expressions, on ASCII: tab, line feed, vertical
  tab, form feed, carriage return, space.\<close>

definition isWhitespace :: "char \<Rightarrow> bool" where
  "isWhitespace c = (c \<in> set [CHR 0x09, CHR 0x0A, CHR 0x0B, CHR 0x0C, CHR 0x0D, CHR '' ''])"

text \<open>The character class of \<open>pascalCase\<close> and \<open>camelCase\<close>: hyphen, underscore, whitespace.\<close>

definition isSeparator :: "char \<Rightarrow> bool" where
  "isSeparator c = (c = CHR ''-'' \<or> c = CHR ''_'' \<or> isWhitespace c)"

text \<open>The characters \<open>.\<close> does not match.\<close>

definition isLineTerminator :: "char \<Rightarrow> bool" where
  "isLineTerminator c = (c = CHR 0x0A \<or> c = CHR 0x0D)"

definition toUpperCase :: "char \<Rightarrow> char" where
  "toUpperCase c = (case map_of (zip lowerLetters upperLetters) c of Some u \<Rightarrow> u | None \<Rightarrow> c)"

definition toLowerCase :: "char \<Rightarrow> char" where
  "toLowerCase c = (case map_of (zip upperLetters lowerLetters) c of Some l \<Rightarrow> l | None \<Rightarrow> c)"

text \<open>
  The first \<open>replace\<close> of \<open>pascalCase\<close> and \<open>camelCase\<close>, global, with the pattern "one or more
  separators, then optionally any character". The scan goes left to right; a match is a
  maximal run of separators and, when one follows that \<open>.\<close> matches, the next character,
  which the callback upper-cases; a run with no such character after it is deleted.
\<close>

function replaceSeparators :: "string \<Rightarrow> string" where
  "replaceSeparators [] = []"
| "replaceSeparators (c # cs) =
     (if isSeparator c then
        (case dropWhile isSeparator cs of
           [] \<Rightarrow> []
         | d # ds \<Rightarrow>
             if isLineTerminator d then replaceSeparators (d # ds)
             else toUpperCase d # replaceSeparators ds)
      else c # replaceSeparators cs)"
  by pat_completeness auto
termination
proof (relation "measure length", goal_cases)
  case 1
  then show ?case by simp
next
  case (2 c cs d ds)
  then show ?case using length_dropWhile_le [of isSeparator cs] by simp
next
  case (3 c cs d ds)
  then show ?case using length_dropWhile_le [of isSeparator cs] by simp
next
  case (4 c cs)
  then show ?case by simp
qed

declare replaceSeparators.simps(2) [simp del]

text \<open>\<open>str.replace(/^(.)/, f)\<close>.\<close>

fun replaceFirst :: "(char \<Rightarrow> char) \<Rightarrow> string \<Rightarrow> string" where
  "replaceFirst f [] = []"
| "replaceFirst f (c # cs) = (if isLineTerminator c then c # cs else f c # cs)"

definition pascalCase :: "string \<Rightarrow> string" where
  "pascalCase str = replaceFirst toUpperCase (replaceSeparators str)"

definition camelCase :: "string \<Rightarrow> string" where
  "camelCase str = replaceFirst toLowerCase (replaceSeparators str)"

section \<open>Schema conversion (codegen/schema-converter.ts)\<close>

text \<open>The test \<open>/^[a-zA-Z_][a-zA-Z0-9_]*$/\<close> that decides whether a property name is
  written bare.\<close>

definition isIdentStart :: "char \<Rightarrow> bool" where
  "isIdentStart c = (c \<in> set lowerLetters \<or> c \<in> set upperLetters \<or> c = CHR ''_'')"

definition isIdentPart :: "char \<Rightarrow> bool" where
  "isIdentPart c = (isIdentStart c \<or> c \<in> set decimalDigits)"

fun isBareIdentifier :: "string \<Rightarrow> bool" where
  "isBareIdentifier [] = False"
| "isBareIdentifier (c # cs) = (isIdentStart c \<and> list_all isIdentPart cs)"

text \<open>\<open>new Set(schema.required || [])\<close>, as the list of its members.\<close>

definition requiredSet :: "json \<Rightarrow> thrown + json list" where
  "requiredSet schema =
     (let r = getProp schema ''required'' in if truthy r then iterate r else Inr [])"

text \<open>One pushed line of the object case: two spaces, the key (quoted unless it is a bare
  identifier), the optional mark, the type.\<close>

definition propLine :: "json list \<Rightarrow> string \<Rightarrow> string \<Rightarrow> string" where
  "propLine required key type =
     (let optional = (if JStr key \<in> set required then '''' else ''?'');
          quotedKey = (if isBareIdentifier key then key else dq # key @ [dq])
      in ''  '' @ quotedKey @ optional @ '': '' @ type @ '';'')"

text \<open>The returned text of the object case, from the pushed lines.\<close>

definition objectText :: "string list \<Rightarrow> string" where
  "objectText props =
     (if length props > 0 then ''{'' @ [nl] @ join [nl] props @ [nl] @ ''}'' else ''{}'')"

lemma size_map_of: "map_of kvs k = Some v \<Longrightarrow> size v < size (JObj kvs)"
  by (induction kvs) (auto split: if_splits)

lemma size_getProp_obj: "size (getProp (JObj kvs) k) < size (JObj kvs)"
  using size_map_of [of kvs k] by (auto split: option.splits)

lemma getProp_obj: "getProp s k \<noteq> JUndefined \<Longrightarrow> \<exists>kvs. s = JObj kvs"
  by (cases s) auto

lemma size_getProp: "getProp s k' \<noteq> JUndefined \<Longrightarrow> size (getProp s k) < size s"
  using getProp_obj [of s k'] size_getProp_obj by auto

lemma size_member: "x \<in> set xs \<Longrightarrow> size x < size (JArr xs)"
  by (induction xs) auto

lemma size_entries: "(k, v) \<in> set (entries p) \<Longrightarrow> size v < Suc (size p)"
proof (cases p)
  case (JArr xs)
  assume "(k, v) \<in> set (entries p)"
  with JArr have "v \<in> set xs" by (auto dest: set_zip_rightD)
  with JArr show ?thesis using size_member [of v xs] by simp
next
  case (JObj kvs)
  assume "(k, v) \<in> set (entries p)"
  with JObj have "(k, v) \<in> set kvs" by simp
  then have "size v < size (JObj kvs)" by (induction kvs) auto
  with JObj show ?thesis by simp
next
  case (JStr s)
  assume "(k, v) \<in> set (entries p)"
  with JStr have "v \<in> set (map (\<lambda>c. JStr [c]) s)" by (auto dest: set_zip_rightD)
  then show ?thesis by auto
qed auto

lemma arrayItems_Some: "arrayItems v = Some xs \<longleftrightarrow> v = JArr xs"
  by (cases v) auto

lemma size_getProp_member:
  "arrayItems (getProp s k) = Some xs \<Longrightarrow> x \<in> set xs \<Longrightarrow> size x < size s"
  using size_getProp [of s k k] size_member [of x xs] by (simp add: arrayItems_Some)

lemma size_type_member:
  "arrayItems (getProp s k) = Some xs \<Longrightarrow> x \<in> set xs \<Longrightarrow> size (JObj [(k', x)]) < size s"
proof -
  assume "arrayItems (getProp s k) = Some xs" and b: "x \<in> set xs"
  then have a: "getProp s k = JArr xs" by (simp add: arrayItems_Some)
  then obtain kvs where s: "s = JObj kvs" using getProp_obj [of s k] by auto
  with a have "map_of kvs k = Some (JArr xs)" by (auto split: option.splits)
  then have "(k, JArr xs) \<in> set kvs" by (rule map_of_SomeD)
  then have "size (JArr xs) + 2 \<le> size (JObj kvs)" by (induction kvs) auto
  moreover have "size x + 2 \<le> size (JArr xs)" using b by (induction xs) auto
  ultimately show ?thesis using s by simp
qed

text \<open>
  \<open>jsonSchemaToTypeScript\<close>. The \<open>switch\<close> compares \<open>schema.type\<close> with the seven type names
  by strict equality; every other value of \<open>type\<close> takes the default branch. A recursive
  call is made on \<open>items\<close>, on each value of \<open>properties\<close>, on \<open>additionalProperties\<close>, on
  each member of \<open>anyOf\<close>/\<open>oneOf\<close>/\<open>allOf\<close>, and on the fresh object \<open>{ type: t }\<close> for each
  member \<open>t\<close> of an array-valued \<open>type\<close>.
\<close>

function jsonSchemaToTypeScript :: "json \<Rightarrow> thrown + string" where
  "jsonSchemaToTypeScript schema =
    (if \<not> truthy schema then Inr ''any''
     else if getProp schema ''type'' = JStr ''string'' then
       (if truthy (getProp schema ''enum'') then
          (case arrayItems (getProp schema ''enum'') of
             Some vs \<Rightarrow>
               bindE (mapE (\<lambda>v. bindE (toStringJS v) (\<lambda>t. Inr (dq # t @ [dq]))) vs)
                 (\<lambda>ss. Inr (join '' | '' ss))
           | None \<Rightarrow> Inl TypeError)
        else Inr ''string'')
     else if getProp schema ''type'' = JStr ''number''
          \<or> getProp schema ''type'' = JStr ''integer'' then Inr ''number''
     else if getProp schema ''type'' = JStr ''boolean'' then Inr ''boolean''
     else if getProp schema ''type'' = JStr ''null'' then Inr ''null''
     else if getProp schema ''type'' = JStr ''array'' then
       bindE (jsonSchemaToTypeScript (getProp schema ''items''))
         (\<lambda>itemType. Inr (itemType @ ''[]''))
     else if getProp schema ''type'' = JStr ''object'' then
       (if \<not> truthy (getProp schema ''properties'') then Inr ''Record<string, any>''
        else
          bindE (requiredSet schema) (\<lambda>required.
          bindE (mapE (\<lambda>(key, propSchema).
                   bindE (jsonSchemaToTypeScript propSchema)
                     (\<lambda>type. Inr (propLine required key type)))
                 (entries (getProp schema ''properties''))) (\<lambda>props.
          if truthy (getProp schema ''additionalProperties'') then
            bindE (if getProp schema ''additionalProperties'' = JBool True then Inr ''any''
                   else jsonSchemaToTypeScript (getProp schema ''additionalProperties''))
              (\<lambda>additionalType.
                 Inr (objectText (props @ [''  [key: string]: '' @ additionalType @ '';''])))
          else Inr (objectText props))))
     else
       (case arrayItems (getProp schema ''type'') of
          Some ts \<Rightarrow>
            bindE (mapE (\<lambda>t. jsonSchemaToTypeScript (JObj [(''type'', t)])) ts)
              (\<lambda>ss. Inr (join '' | '' ss))
        | None \<Rightarrow>
          if truthy (getProp schema ''anyOf'') \<or> truthy (getProp schema ''oneOf'') then
            (case arrayItems (if truthy (getProp schema ''anyOf'') then getProp schema ''anyOf''
                   else getProp schema ''oneOf'') of
               Some schemas \<Rightarrow>
                 bindE (mapE jsonSchemaToTypeScript schemas) (\<lambda>ss. Inr (join '' | '' ss))
             | None \<Rightarrow> Inl TypeError)
          else if truthy (getProp schema ''allOf'') then
            (case arrayItems (getProp schema ''allOf'') of
               Some schemas \<Rightarrow>
                 bindE (mapE jsonSchemaToTypeScript schemas) (\<lambda>ss. Inr (join '' & '' ss))
             | None \<Rightarrow> Inl TypeError)
          else Inr ''any''))"
  by pat_completeness auto
termination
proof (relation "measure size", goal_cases)
  case 1
  then show ?case by simp
next
  case (2 schema)
  then show ?case using size_getProp [of schema "''type''" "''items''"] by simp
next
  case (3 schema required kv key propSchema)
  then have "size propSchema < Suc (size (getProp schema ''properties''))"
    using size_entries [of key propSchema] by simp
  moreover have "size (getProp schema ''properties'') < size schema"
    using 3 size_getProp [of schema "''type''" "''properties''"] by simp
  ultimately show ?case by simp
next
  case (4 schema required props)
  then show ?case
    using size_getProp [of schema "''type''" "''additionalProperties''"] by simp
next
  case (5 schema ts t)
  then show ?case
    using size_getProp_member [of schema "''anyOf''" ts t]
      size_getProp_member [of schema "''oneOf''" ts t]
    by (cases "truthy (getProp schema ''anyOf'')") simp_all
next
  case (6 schema ts t)
  then show ?case using size_getProp_member [of schema "''allOf''" ts t] by simp
next
  case (7 schema ts t)
  then show ?case using size_type_member [of schema "''type''" ts t "''type''"] by simp
qed

declare jsonSchemaToTypeScript.simps [simp del]

subsection \<open>Well-formed schemas\<close>

text \<open>
  A schema is well formed when, in it and in every schema below it, the keywords the
  converter maps over or iterates hold what JSON Schema says they hold: \<open>enum\<close>, \<open>required\<close>,
  \<open>anyOf\<close>, \<open>oneOf\<close> and \<open>allOf\<close> are absent or arrays, the values of an \<open>enum\<close> are not
  arrays or objects, and \<open>properties\<close> is absent or an object. Values that are not objects
  are well formed: the converter reads nothing from them.
\<close>

fun isPrimitive :: "json \<Rightarrow> bool" where
  "isPrimitive (JArr xs) = False"
| "isPrimitive (JObj kvs) = False"
| "isPrimitive v = True"

fun arrayOrAbsent :: "json \<Rightarrow> bool" where
  "arrayOrAbsent JUndefined = True"
| "arrayOrAbsent (JArr xs) = True"
| "arrayOrAbsent v = False"

fun objectOrAbsent :: "json \<Rightarrow> bool" where
  "objectOrAbsent JUndefined = True"
| "objectOrAbsent (JObj kvs) = True"
| "objectOrAbsent v = False"


fun elems :: "json \<Rightarrow> json list" where
  "elems (JArr xs) = xs"
| "elems v = []"

lemma size_elems: "x \<in> set (elems v) \<Longrightarrow> size x < size v"
  by (cases v) (auto dest: size_member)

lemma size_elems_getProp:
  "x \<in> set (elems (getProp (JObj kvs) k)) \<Longrightarrow> size x < size (JObj kvs)"
  using size_elems [of x "getProp (JObj kvs) k"] size_getProp_obj [of kvs k] by simp

function wellFormed :: "json \<Rightarrow> bool" where
  "wellFormed (JObj kvs) =
     (arrayOrAbsent (getProp (JObj kvs) ''enum'') \<and>
      list_all isPrimitive (elems (getProp (JObj kvs) ''enum'')) \<and>
      arrayOrAbsent (getProp (JObj kvs) ''required'') \<and>
      arrayOrAbsent (getProp (JObj kvs) ''anyOf'') \<and>
      arrayOrAbsent (getProp (JObj kvs) ''oneOf'') \<and>
      arrayOrAbsent (getProp (JObj kvs) ''allOf'') \<and>
      list_all wellFormed (elems (getProp (JObj kvs) ''anyOf'')) \<and>
      list_all wellFormed (elems (getProp (JObj kvs) ''oneOf'')) \<and>
      list_all wellFormed (elems (getProp (JObj kvs) ''allOf'')) \<and>
      wellFormed (getProp (JObj kvs) ''items'') \<and>
      objectOrAbsent (getProp (JObj kvs) ''properties'') \<and>
      list_all (\<lambda>(k, v). wellFormed v) (entries (getProp (JObj kvs) ''properties'')) \<and>
      wellFormed (getProp (JObj kvs) ''additionalProperties''))"
| "wellFormed JUndefined = True"
| "wellFormed JNull = True"
| "wellFormed (JBool b) = True"
| "wellFormed (JNum n) = True"
| "wellFormed (JStr s) = True"
| "wellFormed (JArr xs) = True"
  by pat_completeness auto
termination
proof (relation "measure size", goal_cases)
  case 1
  then show ?case by simp
next
  case (2 kvs x)
  then show ?case using size_elems_getProp [of x kvs "''anyOf''"] by simp
next
  case (3 kvs x)
  then show ?case using size_elems_getProp [of x kvs "''oneOf''"] by simp
next
  case (4 kvs x)
  then show ?case using size_elems_getProp [of x kvs "''allOf''"] by simp
next
  case (5 kvs)
  then show ?case using size_getProp_obj [of kvs "''items''"] by simp
next
  case (6 kvs kv k v)
  then have "size v < Suc (size (getProp (JObj kvs) ''properties''))"
    using size_entries [of k v] by simp
  then show ?case using size_getProp_obj [of kvs "''properties''"] by simp
next
  case (7 kvs)
  then show ?case using size_getProp_obj [of kvs "''additionalProperties''"] by simp
qed

declare wellFormed.simps(1) [simp del]

text \<open>The shapes the converter recognises: one of the seven type names, an array-valued
  \<open>type\<close>, or a truthy \<open>anyOf\<close>, \<open>oneOf\<close> or \<open>allOf\<close>.\<close>

definition recognizedShape :: "json \<Rightarrow> bool" where
  "recognizedShape s =
     (getProp s ''type'' \<in> set (map JStr [''string'', ''number'', ''integer'', ''boolean'',
         ''null'', ''array'', ''object''])
      \<or> arrayItems (getProp s ''type'') \<noteq> None
      \<or> truthy (getProp s ''anyOf'') \<or> truthy (getProp s ''oneOf'')
      \<or> truthy (getProp s ''allOf''))"

text \<open>The schema without its own property \<open>k\<close>.\<close>

fun removeKey :: "string \<Rightarrow> json \<Rightarrow> json" where
  "removeKey k (JObj kvs) = JObj (filter (\<lambda>kv. fst kv \<noteq> k) kvs)"
| "removeKey k v = v"

section \<open>Introspected capability descriptors\<close>

text \<open>
  The descriptors are typed by the protocol SDK; an optional string field is a
  \<open>string option\<close>, and a condition on it tests its truthiness: present and not empty.
  The input schema of a tool is whatever JSON the server sent (\<open>JUndefined\<close> when absent).
\<close>

record tool =
  t_name :: string
  t_description :: "string option"
  inputSchema :: json

record resource =
  uri :: string
  r_name :: "string option"
  r_description :: "string option"

record promptArgument =
  a_name :: string
  a_required :: "bool option"

record prompt =
  p_name :: string
  p_description :: "string option"
  p_arguments :: "promptArgument list option"

record introspectionResult =
  tools :: "tool list"
  resources :: "resource list"
  prompts :: "prompt list"
  error :: "string option"

fun truthyStr :: "string option \<Rightarrow> bool" where
  "truthyStr None = False"
| "truthyStr (Some s) = (s \<noteq> [])"

section \<open>The generated source file\<close>

text \<open>
  The generator builds its output through the ts-morph library: it adds text statements
  and declaration structures to a source file, and the library prints them, in the order
  they were added, into the returned text. The model is the sequence of what was added;
  each value below is the structure the generator passes to the library.
\<close>

record jsDoc =
  d_description :: string
  d_tags :: "(string \<times> string) list"

record parameter =
  prm_name :: string
  prm_type :: string

record propertySignature =
  ps_name :: string
  ps_type :: string
  ps_hasQuestionToken :: bool
  ps_docs :: "json list"

record interfaceDeclaration =
  i_name :: string
  i_isExported :: bool
  i_docs :: "string list"
  i_properties :: "propertySignature list"

record classProperty =
  cp_name :: string
  cp_type :: string
  cp_scope :: string

record constructorDeclaration =
  ctor_parameters :: "parameter list"
  ctor_statements :: "string list"

record methodDeclaration =
  m_name :: string
  m_isAsync :: bool
  m_parameters :: "parameter list"
  m_returnType :: string
  m_docs :: "jsDoc list"
  m_statements :: "string list"

record classDeclaration =
  c_name :: string
  c_isExported :: bool
  c_docs :: "jsDoc list"
  c_properties :: "classProperty list"
  c_ctors :: "constructorDeclaration list"
  c_methods :: "methodDeclaration list"

record importDeclaration =
  moduleSpecifier :: string
  namedImports :: "string list"
  isTypeOnly :: bool

record functionDeclaration =
  f_name :: string
  f_isExported :: bool
  f_parameters :: "parameter list"
  f_returnType :: string
  f_statements :: "string list"

datatype statement =
    Raw string
  | Import importDeclaration
  | Interface interfaceDeclaration
  | Class classDeclaration
  | Function functionDeclaration

section \<open>Declaration builder (codegen/interface-generator.ts)\<close>

text \<open>
  \<open>generateToolInterface\<close>, as the interface it adds. The type string of the whole schema
  is computed first. An object schema with truthy \<open>properties\<close> gets one property per
  entry, with a doc comment when the property schema has a truthy \<open>description\<close> (reading
  it from a \<open>null\<close> property schema throws); any other schema gets the single property
  \<open>value\<close>, unless its type string is \<open>{}\<close>.
\<close>

definition generateToolInterface :: "tool \<Rightarrow> thrown + interfaceDeclaration" where
  "generateToolInterface tool =
     (let interfaceName = pascalCase (t_name tool) @ ''Input'' in
      bindE (jsonSchemaToTypeScript (inputSchema tool)) (\<lambda>typeString.
      let interfaceDecl = \<lparr>i_name = interfaceName, i_isExported = True,
            i_docs = (if truthyStr (t_description tool) then [the (t_description tool)] else []),
            i_properties = []\<rparr> in
      if getProp (inputSchema tool) ''type'' = JStr ''object''
         \<and> truthy (getProp (inputSchema tool) ''properties'') then
        bindE (requiredSet (inputSchema tool)) (\<lambda>required.
        bindE (mapE (\<lambda>(key, propSchema).
                 bindE (jsonSchemaToTypeScript propSchema) (\<lambda>type.
                 bindE (getMember propSchema ''description'') (\<lambda>description.
                 Inr \<lparr>ps_name = key, ps_type = type,
                      ps_hasQuestionToken = (JStr key \<notin> set required),
                      ps_docs = (if truthy description then [description] else [])\<rparr>)))
               (entries (getProp (inputSchema tool) ''properties''))) (\<lambda>props.
        Inr (interfaceDecl\<lparr>i_properties := props\<rparr>)))
      else if typeString \<noteq> ''{}'' then
        Inr (interfaceDecl\<lparr>i_properties :=
          [\<lparr>ps_name = ''value'', ps_type = typeString, ps_hasQuestionToken = False,
            ps_docs = []\<rparr>]\<rparr>)
      else Inr interfaceDecl))"

section \<open>Class synthesizer (codegen/class-generator.ts)\<close>

definition generateToolMethod :: "tool \<Rightarrow> methodDeclaration" where
  "generateToolMethod tool =
     (let methodName = camelCase (t_name tool);
          inputType = (if truthy (inputSchema tool) then pascalCase (t_name tool) @ ''Input''
                       else ''void'');
          callArgs = (if inputType \<noteq> ''void'' then ''input'' else ''{}'')
      in \<lparr>m_name = methodName, m_isAsync = True,
          m_parameters = (if inputType \<noteq> ''void''
                          then [\<lparr>prm_name = ''input'', prm_type = inputType\<rparr>] else []),
          m_returnType = ''Promise<any>'',
          m_docs = (if truthyStr (t_description tool)
                    then [\<lparr>d_description = the (t_description tool), d_tags = []\<rparr>] else []),
          m_statements =
            [''const result = await this.connection.client.callTool({'',
             ''  name: '' @ [dq] @ t_name tool @ [dq] @ '','',
             ''  arguments: '' @ callArgs @ '','',
             ''});'',
             ''return handleToolResult(result, '' @ [dq] @ t_name tool @ [dq] @ '');'']\<rparr>)"

definition resourceMethod :: "resource \<Rightarrow> methodDeclaration" where
  "resourceMethod resource =
     \<lparr>m_name = ''get'' @ pascalCase (the (r_name resource)), m_isAsync = True,
      m_parameters = [], m_returnType = ''Promise<any>'',
      m_docs = (if truthyStr (r_description resource)
                then [\<lparr>d_description = the (r_description resource), d_tags = []\<rparr>] else []),
      m_statements = [''return this.getResource('' @ [dq] @ uri resource @ [dq] @ '');'']\<rparr>"

definition generateResourceMethods :: "resource list \<Rightarrow> methodDeclaration list" where
  "generateResourceMethods rs =
     \<lparr>m_name = ''getResource'', m_isAsync = True,
      m_parameters = [\<lparr>prm_name = ''uri'', prm_type = ''string''\<rparr>],
      m_returnType = ''Promise<any>'',
      m_docs = [\<lparr>d_description = ''Fetch a resource by URI'',
                 d_tags = [(''param'', ''uri - Resource URI'')]\<rparr>],
      m_statements =
        [''const result = await this.connection.client.readResource({ uri });'',
         ''return handleResourceResult(result, uri);'']\<rparr>
     # map resourceMethod (filter (\<lambda>r. truthyStr (r_name r)) rs)"

definition promptParams :: "prompt \<Rightarrow> string list" where
  "promptParams p =
     (case p_arguments p of
        None \<Rightarrow> []
      | Some args \<Rightarrow>
          map (\<lambda>arg. a_name arg @ (if a_required arg = Some True then '''' else ''?'')
                 @ '': string'') args)"

definition promptMethod :: "prompt \<Rightarrow> methodDeclaration" where
  "promptMethod p =
     (let methodName = camelCase (p_name p) @ ''Prompt'';
          params = promptParams p;
          argsParam = (if length params > 0 then ''args'' else ''{}'')
      in \<lparr>m_name = methodName, m_isAsync = True,
          m_parameters = (if length params > 0
             then [\<lparr>prm_name = ''args'', prm_type = ''{ '' @ join ''; '' params @ '' }''\<rparr>]
             else []),
          m_returnType = ''Promise<any>'',
          m_docs = (if truthyStr (p_description p)
                    then [\<lparr>d_description = the (p_description p), d_tags = []\<rparr>] else []),
          m_statements =
            [''const result = await this.connection.client.getPrompt({'',
             ''  name: '' @ [dq] @ p_name p @ [dq] @ '','',
             ''  arguments: '' @ argsParam @ '','',
             ''});'',
             ''return result.messages;'']\<rparr>)"

definition generatePromptMethods :: "prompt list \<Rightarrow> methodDeclaration list" where
  "generatePromptMethods ps = map promptMethod ps"

text \<open>
  \<open>generateClientClass\<close>. Its doc comment carries a \<open>@generated\<close> tag with the text of
  \<open>new Date().toISOString()\<close>, read when the class is generated: the argument \<open>now\<close>.
\<close>

definition generateClientClass :: "string \<Rightarrow> introspectionResult \<Rightarrow> string \<Rightarrow> classDeclaration" where
  "generateClientClass serverName result now =
     (let className = pascalCase serverName @ ''Client'' in
      \<lparr>c_name = className, c_isExported = True,
       c_docs = [\<lparr>d_description = ''MCP client for '' @ serverName @ '' server'',
                  d_tags = [(''generated'', now)]\<rparr>],
       c_properties = [\<lparr>cp_name = ''connection'', cp_type = ''McpConnection'',
                         cp_scope = ''private''\<rparr>],
       c_ctors = [\<lparr>ctor_parameters = [\<lparr>prm_name = ''connection'', prm_type = ''McpConnection''\<rparr>],
                    ctor_statements = [''this.connection = connection;'']\<rparr>],
       c_methods = map generateToolMethod (tools result)
         @ (if length (resources result) > 0 then generateResourceMethods (resources result) else [])
         @ (if length (prompts result) > 0 then generatePromptMethods (prompts result) else [])\<rparr>)"

section \<open>Module assembler (codegen/file-builder.ts)\<close>

record codegenOptions =
  outputPath :: "string option"
  clientPrefix :: "string option"
  includeComments :: "bool option"
  treeShakable :: "bool option"

text \<open>The lines \<open>addUtilityFunctions\<close> adds: the two shared helpers, verbatim.\<close>

definition utilityFunctions :: "string list" where
  "utilityFunctions =
    [''/**'',
     '' * Helper function to handle MCP tool call results with proper error checking'',
     '' * @param result - The result from client.callTool()'',
     '' * @param toolName - Name of the tool for error messages'',
     '' * @returns The first content item from the result'',
     '' * @throws Error if the tool returned an error or invalid content'',
     '' */'',
     ''function handleToolResult<T = any>(result: any, toolName: string): T {'',
     ''  // Check if the tool returned an error'',
     ''  if (result.isError) {'',
     ''    const errorContent = result.content?.[0];'',
     ''    const errorMessage ='',
     ''      errorContent && typeof errorContent === '' @ [dq] @ ''object'' @ [dq] @ '' && '' @ [dq] @ ''text'' @ [dq] @ '' in errorContent'',
     ''        ? String(errorContent.text)'',
     ''        : '' @ [dq] @ ''Tool execution failed'' @ [dq] @ '';'',
     ''    throw new Error(`Tool '${toolName}' error: ${errorMessage}`);'',
     ''  }'',
     '''',
     ''  // Validate content exists and is non-empty'',
     ''  if ('',
     ''    !result.content ||'',
     ''    !Array.isArray(result.content) ||'',
     ''    result.content.length === 0'',
     ''  ) {'',
     ''    throw new Error(`Tool '${toolName}' returned empty content`);'',
     ''  }'',
     '''',
     ''  // Extract the first content item'',
     ''  const content = result.content[0];'',
     ''  if (!content || typeof content !== '' @ [dq] @ ''object'' @ [dq] @ '') {'',
     ''    throw new Error(`Tool '${toolName}' returned invalid content structure`);'',
     ''  }'',
     '''',
     ''  return content as T;'',
     ''}'',
     '''',
     ''/**'',
     '' * Helper function to handle MCP resource read results'',
     '' * @param result - The result from client.readResource()'',
     '' * @param resourceUri - URI of the resource for error messages'',
     '' * @returns The first content item from the result'',
     '' * @throws Error if the resource returned empty contents'',
     '' */'',
     ''function handleResourceResult<T = any>('',
     ''  result: any,'',
     ''  resourceUri: string,'',
     ''): T {'',
     ''  // Validate contents exist'',
     ''  if ('',
     ''    !result.contents ||'',
     ''    !Array.isArray(result.contents) ||'',
     ''    result.contents.length === 0'',
     ''  ) {'',
     ''    throw new Error(`Resource '${resourceUri}' returned empty contents`);'',
     ''  }'',
     '''',
     ''  return result.contents[0] as T;'',
     ''}'',
     '''']"

text \<open>
  The clock. Every \<open>new Date().toISOString()\<close> reads it; \<open>clock k\<close> is the text the read
  number \<open>k\<close> of a run returns. A run reads it once for the header and once for every class
  it generates.
\<close>

type_synonym clock = "nat \<Rightarrow> string"

text \<open>What the assembler adds before it looks at the servers: the header, the two
  imports, the shared helpers.\<close>

definition fileHeader :: "string \<Rightarrow> statement list" where
  "fileHeader now =
     [Raw ''/* Generated MCP Client SDK */'',
      Raw (''/* Generated at: '' @ now @ '' */''),
      Raw '''',
      Import \<lparr>moduleSpecifier = ''@modelcontextprotocol/sdk/client/index.js'',
              namedImports = [''Client''], isTypeOnly = False\<rparr>,
      Import \<lparr>moduleSpecifier = ''./types.js'', namedImports = [''McpConnection''],
              isTypeOnly = True\<rparr>,
      Raw '''']
     @ map Raw utilityFunctions"

text \<open>The state of the loop over the servers: the source file so far, the number of
  clock reads so far, and the names pushed on \<open>clientInstances\<close>.\<close>

record genState =
  sourceFile :: "statement list"
  reads :: nat
  clientInstances :: "string list"

definition errorComment :: "string \<Rightarrow> string \<Rightarrow> string" where
  "errorComment serverName err = ''// Error introspecting '' @ serverName @ '': '' @ err"

definition slotLine :: "string \<Rightarrow> string \<Rightarrow> string" where
  "slotLine instanceName className =
     ''let _'' @ instanceName @ '': '' @ className @ '' | undefined;''"

definition accessorFunction :: "string \<Rightarrow> string \<Rightarrow> string \<Rightarrow> functionDeclaration" where
  "accessorFunction serverName instanceName className =
     \<lparr>f_name = ''get'' @ pascalCase serverName @ ''Client'', f_isExported = True,
      f_parameters = [\<lparr>prm_name = ''connection'', prm_type = ''McpConnection''\<rparr>],
      f_returnType = className,
      f_statements =
        [''if (!_'' @ instanceName @ '') {'',
         ''  _'' @ instanceName @ '' = new '' @ className @ ''(connection);'',
         ''}'',
         ''return _'' @ instanceName @ '';'']\<rparr>"

text \<open>
  One iteration of the loop over the servers. A server with a truthy \<open>error\<close> adds its
  comment and nothing else. Any other server adds one interface per tool with a truthy
  input schema (a throw of the declaration builder ends the run), its class, and, unless
  \<open>treeShakable\<close> is \<open>false\<close>, the slot and the accessor function.
\<close>

definition serverStep ::
  "codegenOptions \<Rightarrow> clock \<Rightarrow> genState \<Rightarrow> string \<times> introspectionResult \<Rightarrow> thrown + genState"
where
  "serverStep options clk st entry =
     (case entry of (serverName, result) \<Rightarrow>
       if truthyStr (error result) then
         Inr (st\<lparr>sourceFile := sourceFile st
                @ [Raw (errorComment serverName (the (error result))), Raw '''']\<rparr>)
       else
         bindE (mapE generateToolInterface
                  (filter (\<lambda>t. truthy (inputSchema t)) (tools result))) (\<lambda>interfaces.
         let classDecl = generateClientClass serverName result (clk (reads st));
             withClass = sourceFile st @ map Interface interfaces @ [Class classDecl]
         in if treeShakable options \<noteq> Some False then
              (let instanceName = camelCase serverName in
               Inr \<lparr>sourceFile = withClass
                      @ [Raw '''',
                         Raw (''// Singleton instance for '' @ serverName),
                         Raw (slotLine instanceName (c_name classDecl)),
                         Raw '''',
                         Function (accessorFunction serverName instanceName (c_name classDecl))],
                    reads = Suc (reads st),
                    clientInstances = clientInstances st @ [instanceName]\<rparr>)
            else Inr \<lparr>sourceFile = withClass, reads = Suc (reads st),
                       clientInstances = clientInstances st\<rparr>))"

fun serverLoop ::
  "codegenOptions \<Rightarrow> clock \<Rightarrow> (string \<times> introspectionResult) list \<Rightarrow> genState \<Rightarrow> thrown + genState"
where
  "serverLoop options clk [] st = Inr st"
| "serverLoop options clk (entry # rest) st =
     bindE (serverStep options clk st entry) (serverLoop options clk rest)"

text \<open>
  \<open>generateClientFile\<close>: the statements of the source file whose printed text it returns.
  The server map is the list of its entries in iteration order.
\<close>

definition generateClientFile ::
  "(string \<times> introspectionResult) list \<Rightarrow> codegenOptions \<Rightarrow> clock \<Rightarrow> thrown + statement list"
where
  "generateClientFile servers options clk =
     bindE (serverLoop options clk servers
              \<lparr>sourceFile = fileHeader (clk 0), reads = 1, clientInstances = []\<rparr>)
       (\<lambda>st. Inr (sourceFile st))"

section \<open>The emitted unwrap helper\<close>

text \<open>
  What the emitted function \<open>handleToolResult(result, toolName)\<close> computes, read from its
  text in \<open>utilityFunctions\<close>. Its parameter is typed \<open>any\<close>.
\<close>

definition sq :: char where
  "sq = CHR 0x27"

text \<open>\<open>v?.[0]\<close>: the first element of an array, the first character of a string, the own
  property \<open>0\<close> of an object.\<close>

fun index0 :: "json \<Rightarrow> json" where
  "index0 (JArr xs) = (case xs of [] \<Rightarrow> JUndefined | x # rest \<Rightarrow> x)"
| "index0 (JStr s) = (case s of [] \<Rightarrow> JUndefined | c # rest \<Rightarrow> JStr [c])"
| "index0 (JObj kvs) = getProp (JObj kvs) ''0''"
| "index0 v = JUndefined"

text \<open>\<open>typeof v === "object"\<close>.\<close>

fun typeofObject :: "json \<Rightarrow> bool" where
  "typeofObject JNull = True"
| "typeofObject (JArr xs) = True"
| "typeofObject (JObj kvs) = True"
| "typeofObject v = False"

text \<open>\<open>"text" in v\<close> for a truthy \<open>v\<close> with \<open>typeof v === "object"\<close>.\<close>

fun hasText :: "json \<Rightarrow> bool" where
  "hasText (JObj kvs) = (''text'' \<in> fst ` set kvs)"
| "hasText v = False"

definition toolErrorPrefix :: "string \<Rightarrow> string" where
  "toolErrorPrefix toolName = ''Tool '' @ [sq] @ toolName @ [sq]"

definition handleToolResult :: "json \<Rightarrow> string \<Rightarrow> thrown + json" where
  "handleToolResult result toolName =
     bindE (getMember result ''isError'') (\<lambda>isError.
     if truthy isError then
       (let errorContent = index0 (getProp result ''content'') in
        bindE (if truthy errorContent \<and> typeofObject errorContent \<and> hasText errorContent
               then toStringJS (getProp errorContent ''text'')
               else Inr ''Tool execution failed'') (\<lambda>errorMessage.
        Inl (Error (toolErrorPrefix toolName @ '' error: '' @ errorMessage))))
     else if \<not> truthy (getProp result ''content'')
           \<or> arrayItems (getProp result ''content'') = None
           \<or> length (elems (getProp result ''content'')) = 0 then
       Inl (Error (toolErrorPrefix toolName @ '' returned empty content''))
     else
       (let content = index0 (getProp result ''content'') in
        if \<not> truthy content \<or> \<not> typeofObject content then
          Inl (Error (toolErrorPrefix toolName @ '' returned invalid content structure''))
        else Inr content))"

section \<open>Notions used in the statements\<close>

subsection \<open>Names\<close>

text \<open>The claim's separators: hyphen, underscore, space.\<close>

definition claimSeparator :: "char \<Rightarrow> bool" where
  "claimSeparator c = (c = CHR ''-'' \<or> c = CHR ''_'' \<or> c = CHR '' '')"

text \<open>Two names differ only in their separator characters: they have the same length and,
  position by position, the same character or two separators.\<close>

definition differOnlyInSeparators :: "string \<Rightarrow> string \<Rightarrow> bool" where
  "differOnlyInSeparators x y =
     list_all2 (\<lambda>a b. a = b \<or> (claimSeparator a \<and> claimSeparator b)) x y"

abbreviation sepRel :: "char \<Rightarrow> char \<Rightarrow> bool" where
  "sepRel a b \<equiv> a = b \<or> (isSeparator a \<and> isSeparator b)"

subsection \<open>Declarations\<close>



subsection \<open>The assembled module, server by server\<close>

definition errorFree :: "string \<times> introspectionResult \<Rightarrow> bool" where
  "errorFree entry = (\<not> truthyStr (error (snd entry)))"

text \<open>The slot and the accessor function of a server, with the blank lines and the
  comment around them; nothing when singleton mode is disabled.\<close>

definition singletonStatements :: "codegenOptions \<Rightarrow> string \<Rightarrow> statement list" where
  "singletonStatements options serverName =
     (if treeShakable options = Some False then []
      else [Raw '''',
            Raw (''// Singleton instance for '' @ serverName),
            Raw (''let _'' @ camelCase serverName @ '': '' @ pascalCase serverName @ ''Client''
                  @ '' | undefined;''),
            Raw '''',
            Function \<lparr>f_name = ''get'' @ pascalCase serverName @ ''Client'', f_isExported = True,
              f_parameters = [\<lparr>prm_name = ''connection'', prm_type = ''McpConnection''\<rparr>],
              f_returnType = pascalCase serverName @ ''Client'',
              f_statements =
                [''if (!_'' @ camelCase serverName @ '') {'',
                 ''  _'' @ camelCase serverName @ '' = new '' @ pascalCase serverName @ ''Client''
                   @ ''(connection);'',
                 ''}'',
                 ''return _'' @ camelCase serverName @ '';'']\<rparr>])"

text \<open>The statements one iteration adds, given the clock text it reads.\<close>

definition stepStatements ::
  "codegenOptions \<Rightarrow> string \<Rightarrow> string \<times> introspectionResult \<Rightarrow> thrown + statement list" where
  "stepStatements options now entry =
     (if errorFree entry then
        bindE (mapE generateToolInterface
                 (filter (\<lambda>t. truthy (inputSchema t)) (tools (snd entry)))) (\<lambda>interfaces.
          Inr (map Interface interfaces
               @ [Class (generateClientClass (fst entry) (snd entry) now)]
               @ singletonStatements options (fst entry)))
      else Inr [Raw (errorComment (fst entry) (the (error (snd entry)))), Raw ''''])"

text \<open>The statements the loop adds for a list of servers, from a given number of clock
  reads on.\<close>

fun loopStatements ::
  "codegenOptions \<Rightarrow> clock \<Rightarrow> nat \<Rightarrow> (string \<times> introspectionResult) list \<Rightarrow> thrown + statement list"
where
  "loopStatements options clk n [] = Inr []"
| "loopStatements options clk n (entry # rest) =
     bindE (stepStatements options (clk n) entry) (\<lambda>new.
     bindE (loopStatements options clk (if errorFree entry then Suc n else n) rest) (\<lambda>more.
       Inr (new @ more)))"

text \<open>The number of classes a list of servers generates: one per server without error.\<close>

definition classesBefore :: "(string \<times> introspectionResult) list \<Rightarrow> nat" where
  "classesBefore servers = length (filter errorFree servers)"

text \<open>A function added as a declaration: the accessor functions are the only ones.\<close>

fun isFunction :: "statement \<Rightarrow> bool" where
  "isFunction (Function f) = True"
| "isFunction s = False"

text \<open>A module-level slot: a text statement that starts with \<open>let _\<close>.\<close>

fun isSlotLine :: "statement \<Rightarrow> bool" where
  "isSlotLine (Raw l) = (take 5 l = ''let _'')"
| "isSlotLine s = False"

subsection \<open>Timestamps\<close>

text \<open>
  Erasing the timestamps of an output: the text of every \<open>@generated\<close> tag in the doc
  comment of a class, and the second statement of the file, the \<open>Generated at\<close> line of
  the header.
\<close>

fun eraseStatement :: "statement \<Rightarrow> statement" where
  "eraseStatement (Class c) =
     Class (c\<lparr>c_docs := map (\<lambda>d. d\<lparr>d_tags := map (\<lambda>(n, t). if n = ''generated'' then (n, '''')
                                       else (n, t)) (d_tags d)\<rparr>) (c_docs c)\<rparr>)"
| "eraseStatement s = s"

definition eraseTimestamps :: "statement list \<Rightarrow> statement list" where
  "eraseTimestamps out = (map eraseStatement out)[1 := Raw ''/* Generated at: */'']"

text \<open>The positions at which two outputs differ.\<close>

definition differingPositions :: "statement list \<Rightarrow> statement list \<Rightarrow> nat list" where
  "differingPositions xs ys =
     filter (\<lambda>i. xs ! i \<noteq> ys ! i) [0..<max (length xs) (length ys)]"

fun statementsOf :: "thrown + statement list \<Rightarrow> statement list" where
  "statementsOf (Inr out) = out"
| "statementsOf (Inl e) = []"

subsection \<open>Example inputs\<close>


text \<open>Two runs of the generator, a day apart.\<close>

definition clockA :: clock where
  "clockA k = ''2025-01-01T00:00:00.000Z''"

definition clockB :: clock where
  "clockB k = ''2025-01-02T00:00:00.000Z''"

text \<open>The options \<open>{}\<close> and \<open>{ treeShakable: false }\<close>.\<close>

definition defaultOptions :: codegenOptions where
  "defaultOptions = \<lparr>outputPath = None, clientPrefix = None, includeComments = None,
     treeShakable = None\<rparr>"

definition classOnlyOptions :: codegenOptions where
  "classOnlyOptions = \<lparr>outputPath = None, clientPrefix = None, includeComments = None,
     treeShakable = Some False\<rparr>"

text \<open>A server with no capability, and servers whose introspection failed.\<close>

definition emptyServer :: introspectionResult where
  "emptyServer = \<lparr>tools = [], resources = [], prompts = [], error = None\<rparr>"

definition brokenServer :: introspectionResult where
  "brokenServer = \<lparr>tools = [], resources = [], prompts = [],
     error = Some ''Connection refused''\<rparr>"






text \<open>Raw results of a tool call.\<close>

definition failedResult :: json where
  "failedResult = JObj [(''isError'', JBool True),
     (''content'', JArr [JObj [(''type'', JStr ''text''), (''text'', JStr ''boom'')]])]"

definition emptyResult :: json where
  "emptyResult = JObj [(''content'', JArr [])]"

definition textResult :: json where
  "textResult = JObj [(''isError'', JBool False),
     (''content'', JArr [JObj [(''type'', JStr ''text''), (''text'', JStr ''hi'')]])]"

definition bareStringResult :: json where
  "bareStringResult = JObj [(''isError'', JBool False), (''content'', JArr [JStr ''hello''])]"

section \<open>Properties of the naming utilities\<close>

lemma dropWhile_sepRel:
  "list_all2 sepRel x y \<Longrightarrow>
   list_all2 sepRel (dropWhile isSeparator x) (dropWhile isSeparator y)"
  by (induction x y rule: list_all2_induct) auto

lemma replaceSeparators_sepRel:
  "list_all2 sepRel x y \<Longrightarrow> replaceSeparators x = replaceSeparators y"
proof (induction x arbitrary: y rule: replaceSeparators.induct)
  case 1
  then show ?case by simp
next
  case (2 c cs)
  from "2.prems" obtain d ds where y: "y = d # ds" and cd: "sepRel c d"
    and rest: "list_all2 sepRel cs ds"
    by (auto simp: list_all2_Cons1)
  show ?case
  proof (cases "isSeparator c")
    case True
    then have sd: "isSeparator d" using cd by auto
    have dw: "list_all2 sepRel (dropWhile isSeparator cs) (dropWhile isSeparator ds)"
      using rest by (rule dropWhile_sepRel)
    show ?thesis
    proof (cases "dropWhile isSeparator cs")
      case Nil
      from dw [unfolded Nil] have dn: "dropWhile isSeparator ds = []" by simp
      show ?thesis unfolding y
        by (simp add: replaceSeparators.simps(2) True sd Nil dn del: dropWhile_eq_Nil_conv)
    next
      case (Cons e es)
      then obtain e' es' where c': "dropWhile isSeparator ds = e' # es'"
        and ee: "sepRel e e'" and r': "list_all2 sepRel es es'"
        using dw by (auto simp: list_all2_Cons1)
      have "\<not> isSeparator e" using Cons hd_dropWhile [of isSeparator cs] by auto
      then have e: "e' = e" using ee by auto
      show ?thesis
      proof (cases "isLineTerminator e")
        case lt: True
        have "replaceSeparators (e # es) = replaceSeparators (e' # es')"
          by (rule "2.IH"(1) [OF True Cons lt]) (simp add: ee r')
        then show ?thesis unfolding y
          by (simp add: replaceSeparators.simps(2) [of c] replaceSeparators.simps(2) [of d]
              True sd Cons c' lt e)
      next
        case nlt: False
        have "replaceSeparators es = replaceSeparators es'"
          using "2.IH"(2) [OF True Cons nlt r'] .
        then show ?thesis unfolding y
          by (simp add: replaceSeparators.simps(2) [of c] replaceSeparators.simps(2) [of d]
              True sd Cons c' nlt e)
      qed
    qed
  next
    case False
    then have "d = c" "\<not> isSeparator d" using cd by auto
    moreover have "replaceSeparators cs = replaceSeparators ds"
      using "2.IH"(3) [OF False rest] .
    ultimately show ?thesis unfolding y
      by (simp add: replaceSeparators.simps(2) [of c])
  qed
qed

lemma claimSeparator_isSeparator: "claimSeparator c \<Longrightarrow> isSeparator c"
  by (auto simp: claimSeparator_def isSeparator_def isWhitespace_def)

lemmas char_tables =
  isSeparator_def isWhitespace_def isLineTerminator_def toUpperCase_def toLowerCase_def
  lowerLetters_def upperLetters_def decimalDigits_def isIdentStart_def isIdentPart_def

text \<open>
  C4. Two operation names that differ only in their separator characters (hyphen,
  underscore, space) get the same declaration name, \<open>pascalCase\<close> of the name followed by
  \<open>Input\<close>, and the same method name, \<open>camelCase\<close> of the name.
\<close>

theorem separator_variants_share_identifiers:
  assumes "differOnlyInSeparators x y"
  shows "pascalCase x @ ''Input'' = pascalCase y @ ''Input'' \<and> camelCase x = camelCase y"
proof -
  have "list_all2 sepRel x y"
    using assms unfolding differOnlyInSeparators_def
    by (rule list_all2_mono) (auto dest: claimSeparator_isSeparator)
  then have "replaceSeparators x = replaceSeparators y" by (rule replaceSeparators_sepRel)
  then show ?thesis by (simp add: pascalCase_def camelCase_def)
qed

theorem separator_variants_share_identifiers_witness:
  "differOnlyInSeparators ''create-page'' ''create_page'' \<and>
   pascalCase ''create-page'' @ ''Input'' = ''CreatePageInput'' \<and>
   pascalCase ''create_page'' @ ''Input'' = ''CreatePageInput'' \<and>
   camelCase ''create_page'' = ''createPage'' \<and>
   camelCase ''create-page'' = camelCase ''create_page''"
  using separator_variants_share_identifiers [of "''create-page''" "''create_page''"]
  by (simp add: differOnlyInSeparators_def claimSeparator_def pascalCase_def camelCase_def
      char_tables replaceSeparators.simps(2))

section \<open>Properties of the schema conversion\<close>

lemma mapE_total:
  "(\<And>x. x \<in> set xs \<Longrightarrow> \<exists>y. f x = Inr y) \<Longrightarrow> \<exists>ys. mapE f xs = Inr ys"
proof (induction xs)
  case Nil
  then show ?case by simp
next
  case (Cons a xs)
  then obtain y where "f a = Inr y" by fastforce
  moreover from Cons obtain ys where "mapE f xs = Inr ys" by fastforce
  ultimately show ?case by simp
qed

lemma toStringJS_primitive: "isPrimitive v \<Longrightarrow> \<exists>t. toStringJS v = Inr t"
  by (cases v) auto

lemma wellFormed_type_only: "wellFormed (JObj [(''type'', t)])"
  by (simp add: wellFormed.simps(1))

lemma arrayOrAbsent_truthy: "arrayOrAbsent v \<Longrightarrow> truthy v \<Longrightarrow> \<exists>xs. v = JArr xs"
  by (cases v) auto

lemma wellFormed_total: "wellFormed s \<Longrightarrow> \<exists>t. jsonSchemaToTypeScript s = Inr t"
proof (induction s rule: jsonSchemaToTypeScript.induct)
  case (1 schema)
  show ?case
  proof (cases schema)
    case (JObj kvs)
    note wf = "1.prems" [unfolded JObj wellFormed.simps(1), folded JObj]
    have tr: "truthy schema" using JObj by simp
    let ?ty = "getProp schema ''type''"
    consider (str) "?ty = JStr ''string''"
      | (num) "?ty = JStr ''number'' \<or> ?ty = JStr ''integer''"
      | (bool) "?ty = JStr ''boolean''"
      | (null) "?ty = JStr ''null''"
      | (arr) "?ty = JStr ''array''"
      | (obj) "?ty = JStr ''object''"
      | (other) "?ty \<noteq> JStr ''string''" "?ty \<noteq> JStr ''number''" "?ty \<noteq> JStr ''integer''"
          "?ty \<noteq> JStr ''boolean''" "?ty \<noteq> JStr ''null''" "?ty \<noteq> JStr ''array''"
          "?ty \<noteq> JStr ''object''"
      by blast
    then show ?thesis
    proof cases
      case str
      show ?thesis
      proof (cases "truthy (getProp schema ''enum'')")
        case True
        then obtain vs where vs: "getProp schema ''enum'' = JArr vs"
          using wf arrayOrAbsent_truthy by blast
        have "\<exists>ss. mapE (\<lambda>v. bindE (toStringJS v) (\<lambda>t. Inr (dq # t @ [dq]))) vs = Inr ss"
        proof (rule mapE_total)
          fix x assume "x \<in> set vs"
          then have "isPrimitive x" using wf vs by (simp add: list_all_iff)
          then show "\<exists>y. bindE (toStringJS x) (\<lambda>t. Inr (dq # t @ [dq])) = Inr y"
            using toStringJS_primitive [of x] by auto
        qed
        then show ?thesis
          by (subst jsonSchemaToTypeScript.simps) (auto simp: tr str True vs)
      next
        case False
        then show ?thesis
          by (subst jsonSchemaToTypeScript.simps) (simp add: tr str)
      qed
    next
      case num
      then show ?thesis by (subst jsonSchemaToTypeScript.simps) (auto simp: tr)
    next
      case bool
      then show ?thesis by (subst jsonSchemaToTypeScript.simps) (auto simp: tr)
    next
      case null
      then show ?thesis by (subst jsonSchemaToTypeScript.simps) (auto simp: tr)
    next
      case arr
      have "wellFormed (getProp schema ''items'')" using wf by simp
      then obtain t where "jsonSchemaToTypeScript (getProp schema ''items'') = Inr t"
        using "1.IH"(1) tr arr by auto
      then show ?thesis by (subst jsonSchemaToTypeScript.simps) (simp add: tr arr)
    next
      case obj
      show ?thesis
      proof (cases "truthy (getProp schema ''properties'')")
        case False
        then show ?thesis by (subst jsonSchemaToTypeScript.simps) (simp add: tr obj)
      next
        case True
        have "\<exists>r. requiredSet schema = Inr r"
        proof (cases "truthy (getProp schema ''required'')")
          case True
          then obtain rs where "getProp schema ''required'' = JArr rs"
            using wf arrayOrAbsent_truthy by blast
          then show ?thesis by (simp add: requiredSet_def)
        next
          case False
          then show ?thesis by (simp add: requiredSet_def)
        qed
        then obtain r where r: "requiredSet schema = Inr r" ..
        have "\<exists>props. mapE (\<lambda>(key, propSchema).
                   bindE (jsonSchemaToTypeScript propSchema)
                     (\<lambda>type. Inr (propLine r key type)))
                 (entries (getProp schema ''properties'')) = Inr props"
        proof (rule mapE_total)
          fix kv assume mem: "kv \<in> set (entries (getProp schema ''properties''))"
          obtain k v where kv: "kv = (k, v)" by (cases kv)
          have "wellFormed v" using wf mem kv by (auto simp: list_all_iff)
          then obtain t where "jsonSchemaToTypeScript v = Inr t"
            using "1.IH"(2) [OF _ _ _ _ _ _ _ _ r mem [unfolded kv] refl] tr obj True by auto
          then show "\<exists>y. (case kv of (key, propSchema) \<Rightarrow>
                   bindE (jsonSchemaToTypeScript propSchema)
                     (\<lambda>type. Inr (propLine r key type))) = Inr y"
            by (simp add: kv)
        qed
        then obtain props where props: "mapE (\<lambda>(key, propSchema).
                   bindE (jsonSchemaToTypeScript propSchema)
                     (\<lambda>type. Inr (propLine r key type)))
                 (entries (getProp schema ''properties'')) = Inr props" ..
        show ?thesis
        proof (cases "truthy (getProp schema ''additionalProperties'') \<and>
            getProp schema ''additionalProperties'' \<noteq> JBool True")
          case True
          have "wellFormed (getProp schema ''additionalProperties'')" using wf by simp
          then obtain t where "jsonSchemaToTypeScript (getProp schema ''additionalProperties'') = Inr t"
            using "1.IH"(3) [OF _ _ _ _ _ _ _ _ r props] tr obj True \<open>truthy (getProp schema ''properties'')\<close>
            by auto
          then show ?thesis
            by (subst jsonSchemaToTypeScript.simps) (simp add: tr obj r props True \<open>truthy (getProp schema ''properties'')\<close>)
        next
          case False
          then show ?thesis
            by (subst jsonSchemaToTypeScript.simps) (auto simp: tr obj r props \<open>truthy (getProp schema ''properties'')\<close>)
        qed
      qed
    next
      case other
      show ?thesis
      proof (cases "arrayItems ?ty")
        case (Some ts)
        have "\<exists>ss. mapE (\<lambda>t. jsonSchemaToTypeScript (JObj [(''type'', t)])) ts = Inr ss"
        proof (rule mapE_total)
          fix t assume "t \<in> set ts"
          then show "\<exists>y. jsonSchemaToTypeScript (JObj [(''type'', t)]) = Inr y"
            using "1.IH"(6) [OF _ _ _ _ _ _ _ Some] tr other wellFormed_type_only by auto
        qed
        then show ?thesis
          by (subst jsonSchemaToTypeScript.simps) (auto simp: tr other Some)
      next
        case None
        let ?any = "getProp schema ''anyOf''" and ?one = "getProp schema ''oneOf''"
        let ?all = "getProp schema ''allOf''"
        show ?thesis
        proof (cases "truthy ?any \<or> truthy ?one")
          case True
          let ?schemas = "if truthy ?any then ?any else ?one"
          have "arrayOrAbsent ?schemas" "truthy ?schemas" using wf True by auto
          then obtain xs where xs: "?schemas = JArr xs" using arrayOrAbsent_truthy by blast
          then have ai: "arrayItems ?schemas = Some xs" by simp
          have wfx: "\<And>x. x \<in> set xs \<Longrightarrow> wellFormed x"
            using wf xs by (auto simp: list_all_iff split: if_splits)
          have "\<exists>ss. mapE jsonSchemaToTypeScript xs = Inr ss"
          proof (rule mapE_total)
            fix x assume "x \<in> set xs"
            then show "\<exists>y. jsonSchemaToTypeScript x = Inr y"
              using "1.IH"(4) [OF _ _ _ _ _ _ _ None True ai] tr other wfx by auto
          qed
          then show ?thesis
            using ai by (subst jsonSchemaToTypeScript.simps) (auto simp: tr other None True)
        next
          case False
          show ?thesis
          proof (cases "truthy ?all")
            case True
            then obtain xs where xs: "?all = JArr xs" using wf arrayOrAbsent_truthy by blast
            then have ai: "arrayItems ?all = Some xs" by simp
            have wfx: "\<And>x. x \<in> set xs \<Longrightarrow> wellFormed x"
              using wf xs by (auto simp: list_all_iff)
            have "\<exists>ss. mapE jsonSchemaToTypeScript xs = Inr ss"
            proof (rule mapE_total)
              fix x assume "x \<in> set xs"
              then show "\<exists>y. jsonSchemaToTypeScript x = Inr y"
                using "1.IH"(5) [OF _ _ _ _ _ _ _ None False True ai] tr other wfx by auto
            qed
            then show ?thesis
              using ai False by (subst jsonSchemaToTypeScript.simps) (auto simp: tr other None True)
          next
            case nall: False
            then show ?thesis
              using False by (subst jsonSchemaToTypeScript.simps) (auto simp: tr other None)
          qed
        qed
      qed
    qed
  qed (simp_all add: jsonSchemaToTypeScript.simps split: option.splits)
qed

lemma unrecognized_any:
  assumes "truthy s" "\<not> recognizedShape s"
  shows "jsonSchemaToTypeScript s = Inr ''any''"
  using assms
  by (subst jsonSchemaToTypeScript.simps) (auto simp: recognizedShape_def)

text \<open>
  C5, as the code has it. The converter returns a type expression, without throwing, for
  every well-formed schema; for an absent (falsy) node and for a node of no recognised
  shape the expression is \<open>any\<close>. (On a schema that is not well formed it can throw: see
  the counterexample below.)
\<close>

theorem synthesis_total_on_well_formed_schemas:
  "(wellFormed s \<longrightarrow> (\<exists>t. jsonSchemaToTypeScript s = Inr t)) \<and>
   (\<not> truthy s \<longrightarrow> jsonSchemaToTypeScript s = Inr ''any'') \<and>
   (truthy s \<and> \<not> recognizedShape s \<longrightarrow> jsonSchemaToTypeScript s = Inr ''any'')"
proof (intro conjI impI)
  assume "wellFormed s"
  then show "\<exists>t. jsonSchemaToTypeScript s = Inr t" by (rule wellFormed_total)
next
  assume "\<not> truthy s"
  then show "jsonSchemaToTypeScript s = Inr ''any''"
    by (subst jsonSchemaToTypeScript.simps) simp
next
  assume "truthy s \<and> \<not> recognizedShape s"
  then show "jsonSchemaToTypeScript s = Inr ''any''"
    by (simp add: unrecognized_any)
qed

theorem synthesis_total_on_well_formed_schemas_witness:
  "wellFormed (JObj [(''type'', JStr ''object''),
       (''properties'', JObj [(''path'', JObj [(''type'', JStr ''string'')])]),
       (''required'', JArr [JStr ''path''])]) \<and>
   (\<exists>t. jsonSchemaToTypeScript (JObj [(''type'', JStr ''object''),
       (''properties'', JObj [(''path'', JObj [(''type'', JStr ''string'')])]),
       (''required'', JArr [JStr ''path''])]) = Inr t) \<and>
   \<not> truthy JNull \<and> jsonSchemaToTypeScript JNull = Inr ''any'' \<and>
   truthy (JObj [(''type'', JStr ''tuple'')]) \<and>
   \<not> recognizedShape (JObj [(''type'', JStr ''tuple'')]) \<and>
   jsonSchemaToTypeScript (JObj [(''type'', JStr ''tuple'')]) = Inr ''any''"
  using synthesis_total_on_well_formed_schemas [of "JObj [(''type'', JStr ''object''),
       (''properties'', JObj [(''path'', JObj [(''type'', JStr ''string'')])]),
       (''required'', JArr [JStr ''path''])]"]
    synthesis_total_on_well_formed_schemas [of JNull]
    synthesis_total_on_well_formed_schemas [of "JObj [(''type'', JStr ''tuple'')]"]
  by (simp add: wellFormed.simps(1) recognizedShape_def)

text \<open>
  The claim as written fails: on the object schema
  \<open>{type: "object", properties: {a: {type: "string"}}, required: true}\<close> (\<open>required\<close> a boolean,
  as JSON Schema draft 3 wrote it) \<open>new Set(true)\<close> throws a \<open>TypeError\<close>, and so does the
  converter.
\<close>

theorem synthesis_throws_on_boolean_required:
  "jsonSchemaToTypeScript (JObj [(''type'', JStr ''object''),
       (''properties'', JObj [(''a'', JObj [(''type'', JStr ''string'')])]),
       (''required'', JBool True)]) = Inl TypeError"
  by (simp add: jsonSchemaToTypeScript.simps requiredSet_def)





text \<open>
  C9. An object schema whose \<open>properties\<close> map is empty and that has no
  \<open>additionalProperties\<close> (its \<open>required\<close> absent or an array) is converted to the empty
  structural type \<open>{}\<close>, whereas the object schema with no \<open>properties\<close> key at all is
  converted to the open type \<open>Record<string, any>\<close>.
\<close>

theorem empty_properties_gives_empty_object_type:
  assumes "getProp s ''type'' = JStr ''object''"
    and "getProp s ''properties'' = JObj []"
    and "getProp s ''additionalProperties'' = JUndefined"
    and "getProp s ''required'' = JUndefined \<or> arrayItems (getProp s ''required'') \<noteq> None"
  shows "jsonSchemaToTypeScript s = Inr ''{}'' \<and>
         jsonSchemaToTypeScript (JObj [(''type'', JStr ''object'')]) = Inr ''Record<string, any>''"
proof -
  from assms(1) obtain kvs where "s = JObj kvs"
    using getProp_obj [of s "''type''"] by auto
  then have t: "truthy s" by simp
  from assms(4) obtain r where r: "requiredSet s = Inr r"
    by (auto simp: requiredSet_def Let_def arrayItems_Some)
  have "jsonSchemaToTypeScript s = Inr ''{}''"
    by (subst jsonSchemaToTypeScript.simps) (simp add: t assms(1-3) r objectText_def)
  moreover have "jsonSchemaToTypeScript (JObj [(''type'', JStr ''object'')]) =
      Inr ''Record<string, any>''"
    by (subst jsonSchemaToTypeScript.simps) simp
  ultimately show ?thesis by simp
qed

theorem empty_properties_gives_empty_object_type_witness:
  "jsonSchemaToTypeScript (JObj [(''type'', JStr ''object''), (''properties'', JObj [])]) = Inr ''{}''
   \<and> jsonSchemaToTypeScript (JObj [(''type'', JStr ''object'')]) = Inr ''Record<string, any>''"
  using empty_properties_gives_empty_object_type
    [of "JObj [(''type'', JStr ''object''), (''properties'', JObj [])]"]
  by simp

lemma map_of_filter_other:
  "k' \<noteq> k \<Longrightarrow> map_of (filter (\<lambda>kv. fst kv \<noteq> k) kvs) k' = map_of kvs k'"
  by (induction kvs) auto

lemma getProp_removeKey: "k' \<noteq> k \<Longrightarrow> getProp (removeKey k s) k' = getProp s k'"
  by (cases s) (simp_all add: map_of_filter_other)

lemma truthy_removeKey: "truthy (removeKey k s) = truthy s"
  by (cases s) simp_all

lemma requiredSet_removeKey: "requiredSet (removeKey ''enum'' s) = requiredSet s"
  by (simp add: requiredSet_def getProp_removeKey)

lemma mapE_quote_strings:
  "mapE (\<lambda>v. bindE (toStringJS v) (\<lambda>t. Inr (dq # t @ [dq]))) (map JStr vs) =
   Inr (map (\<lambda>v. dq # v @ [dq]) vs)"
  by (induction vs) auto

text \<open>
  C10. When the \<open>type\<close> of a schema is not exactly the string \<open>string\<close> (another value, or
  absent), its \<open>enum\<close> is ignored: the converter returns what it returns for the schema
  without the \<open>enum\<close> field. When the \<open>type\<close> is \<open>string\<close> and \<open>enum\<close> is an array of strings,
  the result is the union of the values, each in double quotes, in order.
\<close>

theorem enum_used_only_for_string_type:
  "(getProp s ''type'' \<noteq> JStr ''string'' \<longrightarrow>
      jsonSchemaToTypeScript s = jsonSchemaToTypeScript (removeKey ''enum'' s)) \<and>
   (getProp s ''type'' = JStr ''string'' \<and> getProp s ''enum'' = JArr (map JStr vs) \<longrightarrow>
      jsonSchemaToTypeScript s = Inr (join '' | '' (map (\<lambda>v. dq # v @ [dq]) vs)))"
proof (intro conjI impI)
  assume ty: "getProp s ''type'' \<noteq> JStr ''string''"
  have same:
    "getProp (removeKey ''enum'' s) ''type'' = getProp s ''type''"
    "getProp (removeKey ''enum'' s) ''items'' = getProp s ''items''"
    "getProp (removeKey ''enum'' s) ''properties'' = getProp s ''properties''"
    "getProp (removeKey ''enum'' s) ''additionalProperties'' = getProp s ''additionalProperties''"
    "getProp (removeKey ''enum'' s) ''anyOf'' = getProp s ''anyOf''"
    "getProp (removeKey ''enum'' s) ''oneOf'' = getProp s ''oneOf''"
    "getProp (removeKey ''enum'' s) ''allOf'' = getProp s ''allOf''"
    by (simp_all add: getProp_removeKey)
  show "jsonSchemaToTypeScript s = jsonSchemaToTypeScript (removeKey ''enum'' s)"
    apply (subst jsonSchemaToTypeScript.simps [of s])
    apply (subst jsonSchemaToTypeScript.simps [of "removeKey ''enum'' s"])
    unfolding same truthy_removeKey requiredSet_removeKey
    apply (simp add: ty)
    done
next
  assume a: "getProp s ''type'' = JStr ''string'' \<and> getProp s ''enum'' = JArr (map JStr vs)"
  then have "truthy s" using getProp_obj [of s "''type''"] by auto
  with a show "jsonSchemaToTypeScript s = Inr (join '' | '' (map (\<lambda>v. dq # v @ [dq]) vs))"
    by (subst jsonSchemaToTypeScript.simps) (simp add: mapE_quote_strings)
qed

theorem enum_used_only_for_string_type_witness:
  "jsonSchemaToTypeScript (JObj [(''type'', JStr ''number''), (''enum'', JArr [JStr ''a'', JStr ''b''])])
     = jsonSchemaToTypeScript (JObj [(''type'', JStr ''number'')]) \<and>
   jsonSchemaToTypeScript (JObj [(''enum'', JArr [JStr ''a'', JStr ''b''])])
     = jsonSchemaToTypeScript (JObj []) \<and>
   jsonSchemaToTypeScript (JObj [(''type'', JStr ''string''), (''enum'', JArr [JStr ''a'', JStr ''b''])])
     = Inr (dq # ''a'' @ [dq] @ '' | '' @ dq # ''b'' @ [dq])"
  using enum_used_only_for_string_type
      [of "JObj [(''type'', JStr ''number''), (''enum'', JArr [JStr ''a'', JStr ''b''])]"]
    enum_used_only_for_string_type [of "JObj [(''enum'', JArr [JStr ''a'', JStr ''b''])]"]
    enum_used_only_for_string_type
      [of "JObj [(''type'', JStr ''string''), (''enum'', JArr [JStr ''a'', JStr ''b''])]"
        "[''a'', ''b'']"]
  by simp

section \<open>Properties of the declaration builder\<close>


lemma getMember_ok:
  "result \<noteq> JNull \<Longrightarrow> result \<noteq> JUndefined \<Longrightarrow> getMember result k = Inr (getProp result k)"
  by (cases result) auto









section \<open>Properties of the emitted unwrap helper\<close>

lemma mapE_Inl: "mapE f xs = Inl e \<Longrightarrow> \<exists>x\<in>set xs. f x = Inl e"
proof (induction xs)
  case Nil
  then show ?case by simp
next
  case (Cons a xs)
  then show ?case by (cases "f a"; cases "mapE f xs") auto
qed

lemma toStringJS_throws: "toStringJS v = Inl e \<Longrightarrow> e = TypeError"
proof (induction v rule: toStringJS.induct)
  case (6 xs)
  let ?f = "\<lambda>x. if x = JNull \<or> x = JUndefined then Inr [] else toStringJS x"
  from "6.prems" have "mapE ?f xs = Inl e"
    by (cases "mapE ?f xs") auto
  then obtain x where "x \<in> set xs" "?f x = Inl e" using mapE_Inl by fastforce
  then show ?case using "6.IH" [of x] by (auto split: if_splits)
qed (auto split: if_splits)

text \<open>
  C3, as the emitted code has it. For every raw result other than \<open>null\<close> and \<open>undefined\<close>:
  when \<open>isError\<close> is truthy the helper throws, an \<open>Error\<close> whose message starts with the tool
  name and \<open>error:\<close> (with the text of the first content item when it has one) or, when
  that text cannot be converted to a string, a \<open>TypeError\<close>; otherwise, when \<open>content\<close> is
  not a non-empty array, it throws the \<open>returned empty content\<close> error; otherwise, when
  the first content item is not an object or array, it throws the \<open>returned invalid
  content structure\<close> error; otherwise it returns the first content item.
\<close>

theorem unwrap_contract:
  assumes "result \<noteq> JNull" and "result \<noteq> JUndefined"
  shows "(truthy (getProp result ''isError'') \<longrightarrow>
           (\<exists>e. handleToolResult result toolName = Inl e \<and>
             (e = TypeError \<or> (\<exists>m. e = Error (toolErrorPrefix toolName @ '' error: '' @ m))))) \<and>
         (truthy (getProp result ''isError'') \<and>
            getProp result ''content'' = JArr (JObj item # rest) \<and>
            getProp (JObj item) ''text'' = JStr msg \<longrightarrow>
            handleToolResult result toolName =
              Inl (Error (toolErrorPrefix toolName @ '' error: '' @ msg))) \<and>
         (\<not> truthy (getProp result ''isError'') \<and>
            (arrayItems (getProp result ''content'') = None \<or> getProp result ''content'' = JArr []) \<longrightarrow>
            handleToolResult result toolName =
              Inl (Error (toolErrorPrefix toolName @ '' returned empty content''))) \<and>
         (\<not> truthy (getProp result ''isError'') \<and>
            getProp result ''content'' = JArr (first # rest) \<and> isPrimitive first \<longrightarrow>
            handleToolResult result toolName =
              Inl (Error (toolErrorPrefix toolName @ '' returned invalid content structure''))) \<and>
         (\<not> truthy (getProp result ''isError'') \<and>
            getProp result ''content'' = JArr (first # rest) \<and> \<not> isPrimitive first \<longrightarrow>
            handleToolResult result toolName = Inr first)"
proof (intro conjI impI)
  note gm = getMember_ok [OF assms]
  {
    assume "truthy (getProp result ''isError'')"
    then show "\<exists>e. handleToolResult result toolName = Inl e \<and>
             (e = TypeError \<or> (\<exists>m. e = Error (toolErrorPrefix toolName @ '' error: '' @ m)))"
      by (cases "toStringJS (getProp (index0 (getProp result ''content'')) ''text'')")
         (auto simp: handleToolResult_def gm Let_def dest: toStringJS_throws)
  next
    assume a: "truthy (getProp result ''isError'') \<and>
            getProp result ''content'' = JArr (JObj item # rest) \<and>
            getProp (JObj item) ''text'' = JStr msg"
    then have "''text'' \<in> fst ` set item"
      by (auto split: option.splits dest!: map_of_SomeD intro: rev_image_eqI)
    with a show "handleToolResult result toolName =
              Inl (Error (toolErrorPrefix toolName @ '' error: '' @ msg))"
      by (simp add: handleToolResult_def gm Let_def)
  next
    assume "\<not> truthy (getProp result ''isError'') \<and>
            (arrayItems (getProp result ''content'') = None \<or> getProp result ''content'' = JArr [])"
    then show "handleToolResult result toolName =
              Inl (Error (toolErrorPrefix toolName @ '' returned empty content''))"
      by (auto simp: handleToolResult_def gm Let_def)
  next
    assume "\<not> truthy (getProp result ''isError'') \<and>
            getProp result ''content'' = JArr (first # rest) \<and> isPrimitive first"
    then show "handleToolResult result toolName =
              Inl (Error (toolErrorPrefix toolName @ '' returned invalid content structure''))"
      by (cases first) (auto simp: handleToolResult_def gm Let_def)
  next
    assume "\<not> truthy (getProp result ''isError'') \<and>
            getProp result ''content'' = JArr (first # rest) \<and> \<not> isPrimitive first"
    then show "handleToolResult result toolName = Inr first"
      by (cases first) (auto simp: handleToolResult_def gm Let_def)
  }
qed

theorem unwrap_contract_witness:
  "handleToolResult failedResult ''echo'' = Inl (Error (toolErrorPrefix ''echo'' @ '' error: boom'')) \<and>
   handleToolResult emptyResult ''echo'' =
     Inl (Error (toolErrorPrefix ''echo'' @ '' returned empty content'')) \<and>
   handleToolResult textResult ''echo'' =
     Inr (JObj [(''type'', JStr ''text''), (''text'', JStr ''hi'')])"
  using unwrap_contract [where result = failedResult and toolName = "''echo''"
      and item = "[(''type'', JStr ''text''), (''text'', JStr ''boom'')]"
      and rest = "[]" and msg = "''boom''"]
    unwrap_contract [where result = emptyResult and toolName = "''echo''"]
    unwrap_contract [where result = textResult and toolName = "''echo''"
      and first = "JObj [(''type'', JStr ''text''), (''text'', JStr ''hi'')]" and rest = "[]"]
  by (simp add: failedResult_def emptyResult_def textResult_def)

text \<open>
  The claim as written fails: with the error flag clear and the non-empty content list
  \<open>["hello"]\<close> the helper does not return the first content item; it throws the third
  error of the emitted code.
\<close>

theorem unwrap_rejects_non_object_item:
  "handleToolResult bareStringResult ''echo'' =
     Inl (Error (toolErrorPrefix ''echo'' @ '' returned invalid content structure''))"
  by (simp add: handleToolResult_def bareStringResult_def)

section \<open>Properties of the module assembler\<close>

lemma serverStep_stepStatements:
  "serverStep options clk st entry =
     bindE (stepStatements options (clk (reads st)) entry) (\<lambda>new.
       Inr \<lparr>sourceFile = sourceFile st @ new,
            reads = (if errorFree entry then Suc (reads st) else reads st),
            clientInstances = clientInstances st
              @ (if errorFree entry \<and> treeShakable options \<noteq> Some False
                 then [camelCase (fst entry)] else [])\<rparr>)"
  by (cases entry; cases "mapE generateToolInterface
        (filter (\<lambda>t. truthy (inputSchema t)) (tools (snd entry)))")
     (auto simp: serverStep_def stepStatements_def errorFree_def singletonStatements_def
        generateClientClass_def accessorFunction_def slotLine_def Let_def)

lemma serverLoop_loopStatements:
  "map_sum id sourceFile (serverLoop options clk servers st) =
     bindE (loopStatements options clk (reads st) servers) (\<lambda>new. Inr (sourceFile st @ new))"
proof (induction servers arbitrary: st)
  case Nil
  then show ?case by simp
next
  case (Cons entry rest)
  show ?case
  proof (cases "stepStatements options (clk (reads st)) entry")
    case (Inl e)
    then show ?thesis by (simp add: serverStep_stepStatements)
  next
    case (Inr new)
    let ?st = "\<lparr>sourceFile = sourceFile st @ new,
            reads = (if errorFree entry then Suc (reads st) else reads st),
            clientInstances = clientInstances st
              @ (if errorFree entry \<and> treeShakable options \<noteq> Some False
                 then [camelCase (fst entry)] else [])\<rparr>"
    have "map_sum id sourceFile (serverLoop options clk (entry # rest) st) =
       map_sum id sourceFile (serverLoop options clk rest ?st)"
      by (simp add: serverStep_stepStatements Inr)
    also have "\<dots> = bindE (loopStatements options clk (reads ?st) rest)
        (\<lambda>more. Inr (sourceFile ?st @ more))"
      by (rule Cons.IH)
    finally have eq: "map_sum id sourceFile (serverLoop options clk (entry # rest) st) =
        bindE (loopStatements options clk (reads ?st) rest)
          (\<lambda>more. Inr (sourceFile ?st @ more))" .
    show ?thesis unfolding eq
      by (cases "loopStatements options clk (if errorFree entry then Suc (reads st) else reads st) rest")
         (simp_all add: Inr)
  qed
qed

lemma generateClientFile_loopStatements:
  "generateClientFile servers options clk =
     bindE (loopStatements options clk 1 servers) (\<lambda>new. Inr (fileHeader (clk 0) @ new))"
proof -
  let ?st = "\<lparr>sourceFile = fileHeader (clk 0), reads = 1, clientInstances = []\<rparr>"
  have "generateClientFile servers options clk = map_sum id sourceFile (serverLoop options clk servers ?st)"
    by (cases "serverLoop options clk servers ?st") (simp_all add: generateClientFile_def)
  then show ?thesis by (simp add: serverLoop_loopStatements)
qed

lemma loopStatements_append:
  "loopStatements options clk n (xs @ ys) =
     bindE (loopStatements options clk n xs) (\<lambda>a.
     bindE (loopStatements options clk (n + classesBefore xs) ys) (\<lambda>b. Inr (a @ b)))"
proof (induction xs arbitrary: n)
  case Nil
  then show ?case
    by (cases "loopStatements options clk n ys") (simp_all add: classesBefore_def)
next
  case (Cons x xs)
  show ?case
  proof (cases "stepStatements options (clk n) x")
    case (Inl e)
    then show ?thesis by simp
  next
    case (Inr new)
    let ?n = "if errorFree x then Suc n else n"
    have n: "?n + classesBefore xs = n + classesBefore (x # xs)"
      by (simp add: classesBefore_def)
    show ?thesis
      using Cons.IH [of ?n]
      by (cases "loopStatements options clk ?n xs";
          cases "loopStatements options clk (n + classesBefore (x # xs)) ys")
         (simp_all add: Inr n)
  qed
qed


lemma classesBefore_error:
  "error r = Some e \<Longrightarrow> e \<noteq> [] \<Longrightarrow> classesBefore [(name, r)] = 0"
  by (simp add: classesBefore_def errorFree_def)

lemma fileHeader_plain: "\<forall>s\<in>set (fileHeader now). \<not> isFunction s \<and> \<not> isSlotLine s"
  by (simp add: fileHeader_def utilityFunctions_def)

lemma stepStatements_plain:
  assumes "treeShakable options = Some False"
    and "stepStatements options now entry = Inr new"
  shows "\<forall>s\<in>set new. \<not> isFunction s \<and> \<not> isSlotLine s"
  using assms
  by (cases "mapE generateToolInterface
        (filter (\<lambda>t. truthy (inputSchema t)) (tools (snd entry)))")
     (auto simp: stepStatements_def singletonStatements_def errorComment_def split: if_splits)

lemma loopStatements_plain:
  assumes "treeShakable options = Some False"
  shows "loopStatements options clk n servers = Inr new \<Longrightarrow>
    \<forall>s\<in>set new. \<not> isFunction s \<and> \<not> isSlotLine s"
proof (induction servers arbitrary: n new)
  case Nil
  then show ?case by simp
next
  case (Cons x xs)
  then obtain a b where a: "stepStatements options (clk n) x = Inr a"
    and b: "loopStatements options clk (if errorFree x then Suc n else n) xs = Inr b"
    and ab: "new = a @ b"
    by (cases "stepStatements options (clk n) x";
        cases "loopStatements options clk (if errorFree x then Suc n else n) xs") auto
  show ?case
    using stepStatements_plain [OF assms a] Cons.IH [OF b] ab by auto
qed

lemma stepStatements_erase:
  "map_sum id (map eraseStatement) (stepStatements options now1 entry) =
   map_sum id (map eraseStatement) (stepStatements options now2 entry)"
  by (cases "mapE generateToolInterface
        (filter (\<lambda>t. truthy (inputSchema t)) (tools (snd entry)))")
     (auto simp: stepStatements_def generateClientClass_def Let_def)

lemma loopStatements_erase:
  "map_sum id (map eraseStatement) (loopStatements options clk1 n servers) =
   map_sum id (map eraseStatement) (loopStatements options clk2 n servers)"
proof (induction servers arbitrary: n)
  case Nil
  then show ?case by simp
next
  case (Cons x xs)
  let ?n = "if errorFree x then Suc n else n"
  show ?case
    using stepStatements_erase [of options "clk1 n" x "clk2 n"] Cons.IH [of ?n]
    by (cases "stepStatements options (clk1 n) x"; cases "stepStatements options (clk2 n) x";
        cases "loopStatements options clk1 ?n xs"; cases "loopStatements options clk2 ?n xs")
       simp_all
qed

lemma eraseTimestamps_header:
  "map eraseStatement new1 = map eraseStatement new2 \<Longrightarrow>
   eraseTimestamps (fileHeader now1 @ new1) = eraseTimestamps (fileHeader now2 @ new2)"
  by (simp add: eraseTimestamps_def fileHeader_def)

lemma assembler_succeeds:
  assumes "\<And>entry. entry \<in> set servers \<Longrightarrow> errorFree entry \<Longrightarrow>
     \<exists>interfaces. mapE generateToolInterface
        (filter (\<lambda>t. truthy (inputSchema t)) (tools (snd entry))) = Inr interfaces"
  shows "\<exists>out. generateClientFile servers options clk = Inr out"
proof -
  have "\<exists>new. loopStatements options clk n servers = Inr new" for n
    using assms
  proof (induction servers arbitrary: n)
    case Nil
    then show ?case by simp
  next
    case (Cons x xs)
    have "\<exists>a. stepStatements options (clk n) x = Inr a"
      using Cons.prems [of x] by (auto simp: stepStatements_def)
    moreover have "\<exists>b. loopStatements options clk (if errorFree x then Suc n else n) xs = Inr b"
      using Cons.IH Cons.prems by simp
    ultimately show ?case by auto
  qed
  then obtain new where "loopStatements options clk 1 servers = Inr new" by blast
  then show ?thesis by (simp add: generateClientFile_loopStatements)
qed


lemma run_one_server:
  "generateClientFile [(name, emptyServer)] options clk =
   Inr (fileHeader (clk 0)
     @ [Class (generateClientClass name emptyServer (clk 1))]
     @ singletonStatements options name)"
  by (simp add: generateClientFile_loopStatements stepStatements_def errorFree_def
      emptyServer_def)

lemma run_no_server: "generateClientFile [] options clk = Inr (fileHeader (clk 0))"
  by (simp add: generateClientFile_loopStatements)




text \<open>
  C8. For a server of the map without error, the output for the servers up to it is the
  output for the servers before it followed by the server's interfaces, its class and,
  unless \<open>treeShakable\<close> is \<open>false\<close>, its module-level slot and its exported accessor
  function \<open>get<PascalCase(serverName)>Client\<close>; the whole output continues with the
  statements of the later servers. When \<open>treeShakable\<close> is \<open>false\<close> the server adds no slot
  and no accessor, and the whole output holds no slot and no function added as a
  declaration (the two shared helpers are text statements of the header).
\<close>

theorem error_free_server_statements:
  assumes gen: "generateClientFile servers options clk = Inr out"
    and i: "i < length servers"
    and entry: "servers ! i = (name, r)"
    and ok: "\<not> truthyStr (error r)"
  shows "\<exists>before interfaces after.
      generateClientFile (take i servers) options clk = Inr before \<and>
      mapE generateToolInterface (filter (\<lambda>t. truthy (inputSchema t)) (tools r))
        = Inr interfaces \<and>
      generateClientFile (take (Suc i) servers) options clk =
        Inr (before @ map Interface interfaces
          @ [Class (generateClientClass name r (clk (Suc (classesBefore (take i servers)))))]
          @ singletonStatements options name) \<and>
      out = before @ map Interface interfaces
          @ [Class (generateClientClass name r (clk (Suc (classesBefore (take i servers)))))]
          @ singletonStatements options name @ after \<and>
      (treeShakable options = Some False \<longrightarrow>
         singletonStatements options name = [] \<and>
         (\<forall>s\<in>set out. \<not> isFunction s \<and> \<not> isSlotLine s))"
proof -
  let ?xs = "take i servers" and ?ys = "drop (Suc i) servers"
  let ?n = "1 + classesBefore ?xs"
  have split: "servers = ?xs @ (name, r) # ?ys"
    using i entry id_take_nth_drop [of i servers] by simp
  have tk: "take (Suc i) servers = ?xs @ [(name, r)]"
    using i entry by (simp add: take_Suc_conv_app_nth)
  from gen obtain new where new: "loopStatements options clk 1 servers = Inr new"
    and out: "out = fileHeader (clk 0) @ new"
    by (cases "loopStatements options clk 1 servers")
       (auto simp: generateClientFile_loopStatements)
  from new have "loopStatements options clk 1 (?xs @ (name, r) # ?ys) = Inr new"
    using split by simp
  then obtain a b where a: "loopStatements options clk 1 ?xs = Inr a"
    and b: "loopStatements options clk ?n ((name, r) # ?ys) = Inr b"
    and ab: "new = a @ b"
    by (cases "loopStatements options clk 1 ?xs";
        cases "loopStatements options clk ?n ((name, r) # ?ys)")
       (auto simp: loopStatements_append)
  have ef: "errorFree (name, r)" using ok by (simp add: errorFree_def)
  from b obtain p c where p: "stepStatements options (clk ?n) (name, r) = Inr p"
    and c: "loopStatements options clk (Suc ?n) ?ys = Inr c"
    and bc: "b = p @ c"
    using ef
    by (cases "stepStatements options (clk ?n) (name, r)";
        cases "loopStatements options clk (Suc ?n) ?ys") auto
  from p obtain interfaces where
    ifs: "mapE generateToolInterface (filter (\<lambda>t. truthy (inputSchema t)) (tools r))
        = Inr interfaces"
    and pp: "p = map Interface interfaces
          @ [Class (generateClientClass name r (clk ?n))] @ singletonStatements options name"
    using ef
    by (cases "mapE generateToolInterface (filter (\<lambda>t. truthy (inputSchema t)) (tools r))")
       (auto simp: stepStatements_def)
  have 1: "generateClientFile ?xs options clk = Inr (fileHeader (clk 0) @ a)"
    using a by (simp add: generateClientFile_loopStatements)
  have 2: "generateClientFile (take (Suc i) servers) options clk =
        Inr ((fileHeader (clk 0) @ a) @ map Interface interfaces
          @ [Class (generateClientClass name r (clk (Suc (classesBefore ?xs))))]
          @ singletonStatements options name)"
    using p pp a
    by (simp add: tk generateClientFile_loopStatements loopStatements_append)
  have 3: "out = (fileHeader (clk 0) @ a) @ map Interface interfaces
          @ [Class (generateClientClass name r (clk (Suc (classesBefore ?xs))))]
          @ singletonStatements options name @ c"
    by (simp add: out ab bc pp)
  have 4: "treeShakable options = Some False \<longrightarrow>
         singletonStatements options name = [] \<and>
         (\<forall>s\<in>set out. \<not> isFunction s \<and> \<not> isSlotLine s)"
  proof
    assume ts: "treeShakable options = Some False"
    have "\<forall>s\<in>set new. \<not> isFunction s \<and> \<not> isSlotLine s"
      using loopStatements_plain [OF ts new] .
    then show "singletonStatements options name = [] \<and>
         (\<forall>s\<in>set out. \<not> isFunction s \<and> \<not> isSlotLine s)"
      using fileHeader_plain [of "clk 0"] ts by (auto simp: out singletonStatements_def)
  qed
  show ?thesis using 1 ifs 2 3 4 by blast
qed

theorem error_free_server_statements_witness:
  "(\<exists>before interfaces after.
      generateClientFile (take 0 [(''test'', emptyServer)]) classOnlyOptions clockA = Inr before \<and>
      mapE generateToolInterface (filter (\<lambda>t. truthy (inputSchema t)) (tools emptyServer))
        = Inr interfaces \<and>
      generateClientFile (take (Suc 0) [(''test'', emptyServer)]) classOnlyOptions clockA =
        Inr (before @ map Interface interfaces
          @ [Class (generateClientClass ''test'' emptyServer
               (clockA (Suc (classesBefore (take 0 [(''test'', emptyServer)])))))]
          @ singletonStatements classOnlyOptions ''test'') \<and>
      fileHeader (clockA 0) @ [Class (generateClientClass ''test'' emptyServer (clockA 1))]
          @ singletonStatements classOnlyOptions ''test''
        = before @ map Interface interfaces
          @ [Class (generateClientClass ''test'' emptyServer
               (clockA (Suc (classesBefore (take 0 [(''test'', emptyServer)])))))]
          @ singletonStatements classOnlyOptions ''test'' @ after \<and>
      singletonStatements classOnlyOptions ''test'' = [] \<and>
      list_all (\<lambda>s. \<not> isFunction s \<and> \<not> isSlotLine s)
        (fileHeader (clockA 0) @ [Class (generateClientClass ''test'' emptyServer (clockA 1))]
          @ singletonStatements classOnlyOptions ''test''))"
proof -
  have ok: "\<not> truthyStr (error emptyServer)" by (simp add: emptyServer_def)
  have ts: "treeShakable classOnlyOptions = Some False" by (simp add: classOnlyOptions_def)
  from error_free_server_statements
    [OF run_one_server [of "''test''" classOnlyOptions clockA], of 0 "''test''" emptyServer, OF _ _ ok]
  show ?thesis by (simp add: ts list_all_iff)
qed

text \<open>
  C1, as the code has it. Two runs of the assembler on the same server map and options,
  at any two times, fail alike or produce outputs that are identical once the timestamps
  are erased: the \<open>Generated at\<close> line of the header and the \<open>@generated\<close> tag in the doc
  comment of every generated class.
\<close>

theorem output_determined_up_to_timestamps:
  "map_sum id eraseTimestamps (generateClientFile servers options clk1) =
   map_sum id eraseTimestamps (generateClientFile servers options clk2)"
  using loopStatements_erase [of options clk1 1 servers clk2]
  by (cases "loopStatements options clk1 1 servers"; cases "loopStatements options clk2 1 servers")
     (simp_all add: generateClientFile_loopStatements eraseTimestamps_header)

theorem output_determined_up_to_timestamps_witness:
  "map_sum id eraseTimestamps (generateClientFile
     [(''notion'', emptyServer), (''broken'', brokenServer), (''github'', emptyServer)]
     defaultOptions clockA) =
   map_sum id eraseTimestamps (generateClientFile
     [(''notion'', emptyServer), (''broken'', brokenServer), (''github'', emptyServer)]
     defaultOptions clockB)"
  by (rule output_determined_up_to_timestamps)

text \<open>
  The claim as written fails: the timestamp is not on a single line. Two runs a day apart
  on one server without error differ at two statements of the output: the second one,
  the \<open>Generated at\<close> line of the header, and the class declaration, whose doc comment
  carries the \<open>@generated\<close> tag with the time of the run.
\<close>

theorem timestamps_on_two_lines:
  "differingPositions
     (statementsOf (generateClientFile [(''test'', emptyServer)] defaultOptions clockA))
     (statementsOf (generateClientFile [(''test'', emptyServer)] defaultOptions clockB))
     = [1, 65] \<and>
   statementsOf (generateClientFile [(''test'', emptyServer)] defaultOptions clockA) ! 1
     = Raw ''/* Generated at: 2025-01-01T00:00:00.000Z */'' \<and>
   statementsOf (generateClientFile [(''test'', emptyServer)] defaultOptions clockA) ! 65
     = Class (generateClientClass ''test'' emptyServer ''2025-01-01T00:00:00.000Z'') \<and>
   c_docs (generateClientClass ''test'' emptyServer ''2025-01-01T00:00:00.000Z'')
     = [\<lparr>d_description = ''MCP client for test server'',
          d_tags = [(''generated'', ''2025-01-01T00:00:00.000Z'')]\<rparr>]"
  by code_simp

end
